theory Spec2Isabelle
  imports Main
begin

section \<open>The environment of find_unique_kmers.py\<close>

text \<open>
  The script drives external programs and exchanges data with them through files, so the
  model passes an explicit world: the text files by path, what was printed to the error
  stream, the number of random integers drawn so far, and the errors of file output.

  A file is its list of lines. A line that the script reads as integers is given by the
  values of its whitespace-separated fields, \<open>Fields vs\<close> (a blank line is \<open>Fields []\<close>);
  \<open>Txt s\<close> is a line of any other text. The model does not convert text to integers:
  where the source applies \<open>int\<close> to the fields of a \<open>Txt\<close> line it raises ValueError.
\<close>

type_synonym path = string

type_synonym command = "string list"

datatype line = Fields "int list" | Txt string

text \<open>
  The exceptions the script can end with. \<open>sys.exit(n)\<close> raises SystemExit, which
  passes through \<open>finally\<close> blocks as any exception does.
\<close>

datatype exn =
    HistogramError command
  | CalledProcessError int command
  | FileNotFoundError
  | ValueError
  | UnboundLocalError
  | AttributeError string
  | TypeError
  | IndexError
  | UnicodeEncodeError
  | OSError
  | SystemExit int

text \<open>
  Writing a text file can fail at each step: \<open>open\<close> for writing, each \<open>print\<close> to the
  file (a string the encoding of the file cannot represent, an input/output error) and
  the closing of the file. What the operating system answers is part of the world:
  \<open>io_error\<close> gives the exception an operation raises, or \<open>None\<close> when it succeeds.
\<close>

datatype io_op = OpenWrite path | Print path string | Close path

record world =
  files :: "path \<rightharpoonup> line list"
  stderr :: "string list"
  draws :: nat
  io_error :: "io_op \<Rightarrow> exn option"

type_synonym 'a io = "world \<Rightarrow> (exn + 'a) \<times> world"

text \<open>
  An external program is a parameter of the model: given the command line and the world
  it either cannot be started (\<open>NotFound\<close>) or exits with a status, leaving a world.
\<close>

datatype proc = NotFound | Exited int world

type_synonym executor = "command \<Rightarrow> world \<Rightarrow> proc"

text \<open>\<open>subprocess.check_call\<close>: FileNotFoundError when the program cannot be started,
  CalledProcessError on a non-zero exit status.\<close>

definition check_call :: "executor \<Rightarrow> command \<Rightarrow> unit io" where
  "check_call exec cmd w =
     (case exec cmd w of
        NotFound \<Rightarrow> (Inl FileNotFoundError, w)
      | Exited rc w' \<Rightarrow>
          if rc = 0 then (Inr (), w') else (Inl (CalledProcessError rc cmd), w'))"

text \<open>\<open>os.remove\<close>: the file must exist.\<close>

definition os_remove :: "path \<Rightarrow> unit io" where
  "os_remove p w =
     (case files w p of
        None \<Rightarrow> (Inl FileNotFoundError, w)
      | Some _ \<Rightarrow> (Inr (), w\<lparr>files := (files w)(p := None)\<rparr>))"

text \<open>
  \<open>open(p, "w")\<close> creates the file or empties it; \<open>print(s, file=f)\<close> adds a line;
  leaving the \<open>with\<close> block closes the file.
\<close>

definition open_write :: "path \<Rightarrow> unit io" where
  "open_write p w =
     (case io_error w (OpenWrite p) of
        Some e \<Rightarrow> (Inl e, w)
      | None \<Rightarrow> (Inr (), w\<lparr>files := (files w)(p \<mapsto> [])\<rparr>))"

definition print_to :: "path \<Rightarrow> string \<Rightarrow> unit io" where
  "print_to p s w =
     (case io_error w (Print p s) of
        Some e \<Rightarrow> (Inl e, w)
      | None \<Rightarrow>
          (Inr (), w\<lparr>files := (files w)(p \<mapsto>
             (case files w p of None \<Rightarrow> [] | Some ls \<Rightarrow> ls) @ [Txt s])\<rparr>))"

definition close_file :: "path \<Rightarrow> unit io" where
  "close_file p w =
     (case io_error w (Close p) of
        Some e \<Rightarrow> (Inl e, w)
      | None \<Rightarrow> (Inr (), w))"

text \<open>\<open>print(s, file=sys.stderr)\<close>.\<close>

definition eprint :: "string \<Rightarrow> world \<Rightarrow> world" where
  "eprint s w = w\<lparr>stderr := stderr w @ [s]\<rparr>"

text \<open>
  \<open>random.randint(a, b)\<close>: the generator is a parameter, the value of the k-th draw for
  the bounds given. Nothing is assumed of it.
\<close>

type_synonym generator = "nat \<Rightarrow> int \<Rightarrow> int \<Rightarrow> int"

definition randint :: "generator \<Rightarrow> int \<Rightarrow> int \<Rightarrow> world \<Rightarrow> int \<times> world" where
  "randint rnd a b w = (rnd (draws w) a b, w\<lparr>draws := Suc (draws w)\<rparr>)"

text \<open>\<open>str\<close> of an integer: decimal digits, with a minus sign below zero.\<close>

definition digit_char :: "nat \<Rightarrow> char" where
  "digit_char d = ''0123456789'' ! d"

fun str_nat :: "nat \<Rightarrow> string" where
  "str_nat n = (if n < 10 then [digit_char n] else str_nat (n div 10) @ [digit_char (n mod 10)])"

definition str_int :: "int \<Rightarrow> string" where
  "str_int i = (if i < 0 then CHR ''-'' # str_nat (nat (- i)) else str_nat (nat i))"

section \<open>analyze_histogram\<close>

text \<open>
  The variables of the scan (lines 135-136). Python's \<open>False\<close> is the integer 0 and
  \<open>not x\<close> holds of \<open>False\<close> and of 0 alike, so \<open>min_coverage\<close> and \<open>max_coverage\<close>
  are integers that start at 0. \<open>min_coverage_count\<close> is unbound until its first
  assignment.
\<close>

record scan_state =
  min_coverage :: int
  max_coverage :: int
  min_coverage_count :: "int option"
  last_count :: int

definition initial_scan :: scan_state where
  "initial_scan =
     \<lparr>min_coverage = 0, max_coverage = 0, min_coverage_count = None, last_count = - 1\<rparr>"

datatype flow = Continue scan_state | Break scan_state

text \<open>Line 138: \<open>coverage, count = map(int, line.strip().split())\<close>.\<close>

fun parse_entry :: "line \<Rightarrow> exn + (int \<times> int)" where
  "parse_entry (Fields [coverage, count]) = Inr (coverage, count)"
| "parse_entry _ = Inl ValueError"

text \<open>The body of the loop, lines 138-155.\<close>

definition loop_body :: "scan_state \<Rightarrow> line \<Rightarrow> exn + flow" where
  "loop_body s l =
     (case parse_entry l of
        Inl e \<Rightarrow> Inl e
      | Inr (coverage, count) \<Rightarrow>
          if coverage \<noteq> 2 then
            if min_coverage s = 0 then
              if count > last_count s then
                Inr (Continue (s\<lparr>min_coverage := coverage - 1,
                                 min_coverage_count := Some (last_count s),
                                 last_count := count\<rparr>))
              else Inr (Continue (s\<lparr>last_count := count\<rparr>))
            else if max_coverage s = 0 then
              (case min_coverage_count s of
                 None \<Rightarrow> Inl UnboundLocalError
               | Some trough \<Rightarrow>
                   if count < trough then Inr (Break (s\<lparr>max_coverage := coverage\<rparr>))
                   else Inr (Continue (s\<lparr>last_count := count\<rparr>)))
            else Inr (Continue (s\<lparr>last_count := count\<rparr>))
          else Inr (Continue (s\<lparr>last_count := count\<rparr>)))"

text \<open>The loop of line 137 over the lines of the histogram file.\<close>

fun scan_lines :: "scan_state \<Rightarrow> line list \<Rightarrow> exn + scan_state" where
  "scan_lines s [] = Inr s"
| "scan_lines s (l # ls) =
     (case loop_body s l of
        Inl e \<Rightarrow> Inl e
      | Inr (Break s') \<Rightarrow> Inr s'
      | Inr (Continue s') \<Rightarrow> scan_lines s' ls)"

text \<open>Lines 135-158: the scan from the initial variables, then the check of line 157.\<close>

definition histogram_range :: "command \<Rightarrow> line list \<Rightarrow> exn + (int \<times> int)" where
  "histogram_range histo_cmd ls =
     (case scan_lines initial_scan ls of
        Inl e \<Rightarrow> Inl e
      | Inr s \<Rightarrow>
          if min_coverage s = 0 \<or> max_coverage s = 0 then Inl (HistogramError histo_cmd)
          else Inr (min_coverage s, max_coverage s))"

definition histo_command :: "string \<Rightarrow> string \<Rightarrow> path \<Rightarrow> command" where
  "histo_command kmc_path kmc_db temp_histogram_path =
     [kmc_path @ ''_tools'', ''transform'', kmc_db, ''histogram'', temp_histogram_path]"

definition low_coverage_warning :: "path \<Rightarrow> string" where
  "low_coverage_warning temp_histogram_path =
     ''WARNING: min and max coverage not very far apart. This may be '' @
     ''a result of coverage being too low. Try taking a look at '' @
     ''the histogram in \"'' @ temp_histogram_path @ ''\" yourself.''"

definition analyze_histogram ::
  "executor \<Rightarrow> generator \<Rightarrow> string \<Rightarrow> string \<Rightarrow> string \<Rightarrow> (int \<times> int) io" where
  "analyze_histogram exec rnd kmc_db kmc_path scratch_path w =
     (let (r, w1) = randint rnd 1 9999999 w;
          temp_histogram_path = scratch_path @ ''/'' @ str_int r;
          histo_cmd = histo_command kmc_path kmc_db temp_histogram_path
      in case check_call exec histo_cmd w1 of
           (Inl e, w2) \<Rightarrow> (Inl e, w2)
         | (Inr _, w2) \<Rightarrow>
             (case files w2 temp_histogram_path of
                None \<Rightarrow> (Inl FileNotFoundError, w2)
              | Some ls \<Rightarrow>
                  (case histogram_range histo_cmd ls of
                     Inl e \<Rightarrow> (Inl e, w2)
                   | Inr (mn, mx) \<Rightarrow>
                       if mx - mn < 5 then
                         (Inr (mn, mx), eprint (low_coverage_warning temp_histogram_path) w2)
                       else
                         (case os_remove temp_histogram_path w2 of
                            (Inl e, w3) \<Rightarrow> (Inl e, w3)
                          | (Inr _, w3) \<Rightarrow> (Inr (mn, mx), w3)))))"

text \<open>A histogram as the spec has it, a sequence of (coverage, count) pairs, and the
  lines of the file that holds it.\<close>

type_synonym histogram = "(int \<times> int) list"

definition histogram_lines :: "histogram \<Rightarrow> line list" where
  "histogram_lines h = map (\<lambda>(coverage, count). Fields [coverage, count]) h"

section \<open>The claimed and the actual choice of the range\<close>

text \<open>
  Each entry of a histogram together with the value \<open>last_count\<close> holds when the entry
  is visited: the count of the entry before it, and \<open>first\<close> at the first entry.
\<close>

type_synonym visit = "(int \<times> int) \<times> int"

definition visits :: "int \<Rightarrow> histogram \<Rightarrow> visit list" where
  "visits first h = zip h (first # map snd h)"

text \<open>
  The selection as the specification words it. Phase 1 ends at the first entry off
  coverage 2 whose count exceeds \<open>last_count\<close>; phase 2 ends at the first later entry
  off coverage 2 whose count is below the trough frequency.
\<close>

definition turns_up :: "visit \<Rightarrow> bool" where
  "turns_up = (\<lambda>((coverage, count), previous). coverage \<noteq> 2 \<and> count > previous)"

definition drops_below :: "int \<Rightarrow> visit \<Rightarrow> bool" where
  "drops_below trough = (\<lambda>((coverage, count), previous). coverage \<noteq> 2 \<and> count < trough)"

definition claimed_range_from :: "int \<Rightarrow> command \<Rightarrow> histogram \<Rightarrow> exn + (int \<times> int)" where
  "claimed_range_from first histo_cmd h =
     (case dropWhile (Not \<circ> turns_up) (visits first h) of
        [] \<Rightarrow> Inl (HistogramError histo_cmd)
      | ((coverage, count), previous) # rest \<Rightarrow>
          (case dropWhile (Not \<circ> drops_below previous) rest of
             [] \<Rightarrow> Inl (HistogramError histo_cmd)
           | ((coverage', count'), previous') # rest' \<Rightarrow> Inr (coverage - 1, coverage')))"

text \<open>
  "The previous recorded count" at the first entry can be read in two ways: as the seed
  -1 of \<open>last_count\<close>, which every count exceeds, or as missing, so that the first
  entry is only recorded and the comparisons start at the second.
\<close>

definition claimed_range :: "command \<Rightarrow> histogram \<Rightarrow> exn + (int \<times> int)" where
  "claimed_range histo_cmd h = claimed_range_from (- 1) histo_cmd h"

definition claimed_range_unseeded :: "command \<Rightarrow> histogram \<Rightarrow> exn + (int \<times> int)" where
  "claimed_range_unseeded histo_cmd h =
     (case h of
        [] \<Rightarrow> Inl (HistogramError histo_cmd)
      | (coverage, count) # rest \<Rightarrow> claimed_range_from count histo_cmd rest)"

text \<open>
  The same selection with zero read as "not found": an entry at coverage 1 does not end
  phase 1, and a phase 2 that ends at coverage 0 yields no range.
\<close>

definition finds_min :: "visit \<Rightarrow> bool" where
  "finds_min = (\<lambda>((coverage, count), previous). coverage \<noteq> 2 \<and> count > previous \<and> coverage - 1 \<noteq> 0)"

definition first_turn :: "histogram \<Rightarrow> (visit \<times> visit list) option" where
  "first_turn h =
     (case dropWhile (Not \<circ> finds_min) (visits (- 1) h) of
        [] \<Rightarrow> None
      | v # rest \<Rightarrow> Some (v, rest))"

definition first_drop :: "int \<Rightarrow> visit list \<Rightarrow> visit option" where
  "first_drop trough rest =
     (case dropWhile (Not \<circ> drops_below trough) rest of
        [] \<Rightarrow> None
      | v # rest' \<Rightarrow> Some v)"

definition two_phase_range :: "command \<Rightarrow> histogram \<Rightarrow> exn + (int \<times> int)" where
  "two_phase_range histo_cmd h =
     (case first_turn h of
        None \<Rightarrow> Inl (HistogramError histo_cmd)
      | Some (((coverage, count), previous), rest) \<Rightarrow>
          (case first_drop previous rest of
             None \<Rightarrow> Inl (HistogramError histo_cmd)
           | Some ((coverage', count'), previous') \<Rightarrow>
               if coverage' = 0 then Inl (HistogramError histo_cmd)
               else Inr (coverage - 1, coverage')))"

text \<open>The visits from the first one that ends phase 1, when \<open>last_count\<close> is \<open>l\<close> at
  the head of \<open>h\<close>.\<close>

definition turn_from :: "int \<Rightarrow> histogram \<Rightarrow> visit list" where
  "turn_from l h = dropWhile (Not \<circ> finds_min) (visits l h)"

text \<open>What line 157 reads of the outcome of the loop.\<close>

definition found :: "exn + scan_state \<Rightarrow> exn + (int \<times> int)" where
  "found r = (case r of Inl e \<Rightarrow> Inl e | Inr s \<Rightarrow> Inr (min_coverage s, max_coverage s))"

text \<open>The condition under which the count at coverage 2 does not matter: nothing follows
  the entry at coverage 2, or the next entry is at coverage 2 again, or its count exceeds
  neither of the two counts compared.\<close>

definition next_count_at_most :: "int \<Rightarrow> int \<Rightarrow> histogram \<Rightarrow> bool" where
  "next_count_at_most c c' post =
     (case post of
        [] \<Rightarrow> True
      | (coverage, count) # rest \<Rightarrow> coverage = 2 \<or> (count \<le> c \<and> count \<le> c'))"

text \<open>
  When HistogramError is raised as the claim words it: the count curve never turns upward,
  or after the minimum is found the count never drops below the trough frequency. As for
  the range, the previous count at the first entry is the seed -1, or the first entry
  is only recorded.
\<close>

definition claimed_failure_from :: "int \<Rightarrow> histogram \<Rightarrow> bool" where
  "claimed_failure_from first h =
     (case dropWhile (Not \<circ> turns_up) (visits first h) of
        [] \<Rightarrow> True
      | ((coverage, count), previous) # rest \<Rightarrow>
          (case dropWhile (Not \<circ> drops_below previous) rest of
             [] \<Rightarrow> True
           | d # rest' \<Rightarrow> False))"

definition claimed_failure :: "histogram \<Rightarrow> bool" where
  "claimed_failure h = claimed_failure_from (- 1) h"

definition claimed_failure_unseeded :: "histogram \<Rightarrow> bool" where
  "claimed_failure_unseeded h =
     (case h of
        [] \<Rightarrow> True
      | (coverage, count) # rest \<Rightarrow> claimed_failure_from count rest)"

text \<open>
  Both transitions found, as the code has it, where a boundary that is 0 is not found:
  the minimum at the first entry off coverage 2 whose count exceeds the previous count
  (-1 at the first entry) and whose coverage is not 1, then the maximum at the first
  later entry off coverage 2 whose count is below the trough frequency, if its coverage
  is not 0.
\<close>

definition both_found :: "histogram \<Rightarrow> bool" where
  "both_found h =
     (case first_turn h of
        None \<Rightarrow> False
      | Some (v, rest) \<Rightarrow>
          (case first_drop (snd v) rest of
             None \<Rightarrow> False
           | Some d \<Rightarrow> fst (fst d) \<noteq> 0))"

text \<open>The histogram of the data model: coverage and count are not negative, and the
  coverage increases strictly.\<close>

definition well_formed :: "histogram \<Rightarrow> bool" where
  "well_formed h =
     (sorted_wrt (<) (map fst h) \<and> list_all (\<lambda>(coverage, count). 0 \<le> coverage \<and> 0 \<le> count) h)"

text \<open>The path of the temporary histogram that \<open>analyze_histogram\<close> draws in world \<open>w\<close>.\<close>

definition temp_histogram :: "generator \<Rightarrow> string \<Rightarrow> world \<Rightarrow> path" where
  "temp_histogram rnd scratch_path w = scratch_path @ ''/'' @ str_int (rnd (draws w) 1 9999999)"

section \<open>run_kmc, run_kmc_subtract, run_kmc_dump\<close>

definition kmc_missing :: string where
  "kmc_missing =
     ''Cannot execute kmc. Make sure kmc is installed and either in'' @ [CHR 0x0A] @
     ''your PATH or specified by the --path-to-kmc option.''"

text \<open>
  Lines 80-82: the list of input paths is written before the \<open>try\<close> statement. An
  exception raised by a \<open>print\<close> leaves the \<open>with\<close> block, which closes the file, with
  the lines printed so far in it.
\<close>

fun print_paths :: "path \<Rightarrow> string list \<Rightarrow> unit io" where
  "print_paths p [] w = (Inr (), w)"
| "print_paths p (path # paths) w =
     (case print_to p path w of
        (Inl e, w') \<Rightarrow> (Inl e, w')
      | (Inr _, w') \<Rightarrow> print_paths p paths w')"

definition write_paths_list :: "path \<Rightarrow> string list \<Rightarrow> unit io" where
  "write_paths_list paths_list_file_path infile_paths w =
     (case open_write paths_list_file_path w of
        (Inl e, w1) \<Rightarrow> (Inl e, w1)
      | (Inr _, w1) \<Rightarrow>
          (case print_paths paths_list_file_path infile_paths w1 of
             (Inl e, w2) \<Rightarrow>
               (case close_file paths_list_file_path w2 of
                  (Inl e', w3) \<Rightarrow> (Inl e', w3)
                | (Inr _, w3) \<Rightarrow> (Inl e, w3))
           | (Inr _, w2) \<Rightarrow> close_file paths_list_file_path w2))"

text \<open>
  Lines 77-105. An exception of lines 80-82 ends \<open>run_kmc\<close> before the \<open>try\<close> statement
  is entered. The \<open>finally\<close> block runs on every exit of the \<open>try\<close>; an exception it
  raises replaces the pending one.
\<close>

definition paths_list_file :: "generator \<Rightarrow> string \<Rightarrow> world \<Rightarrow> path" where
  "paths_list_file rnd scratch_dir w = scratch_dir @ ''/'' @ str_int (rnd (draws w) 0 9999999)"

definition kmc_command :: "string \<Rightarrow> int \<Rightarrow> int \<Rightarrow> path \<Rightarrow> string \<Rightarrow> string \<Rightarrow> command" where
  "kmc_command kmc_path k threads paths_list_file_path outfile_path scratch_dir =
     [kmc_path, ''-k'' @ str_int k, ''-t'' @ str_int threads,
      ''@'' @ paths_list_file_path, outfile_path, scratch_dir]"

definition run_kmc ::
  "executor \<Rightarrow> generator \<Rightarrow> string list \<Rightarrow> string \<Rightarrow> int \<Rightarrow> int \<Rightarrow> string \<Rightarrow> string \<Rightarrow> unit io" where
  "run_kmc exec rnd infile_paths outfile_path k threads kmc_path scratch_dir w =
     (let (r, w1) = randint rnd 0 9999999 w;
          infile_rand_int = str_int r;
          paths_list_file_path = scratch_dir @ ''/'' @ infile_rand_int
      in case write_paths_list paths_list_file_path infile_paths w1 of
           (Inl e, w2) \<Rightarrow> (Inl e, w2)
         | (Inr _, w2) \<Rightarrow>
             (let kmc_cmd = kmc_command kmc_path k threads paths_list_file_path outfile_path
                              scratch_dir;
                  (outcome, w3) =
                    (case check_call exec kmc_cmd w2 of
                       (Inl FileNotFoundError, w') \<Rightarrow>
                         (Inl (SystemExit 1), eprint kmc_missing w')
                     | (Inl e, w') \<Rightarrow> (Inl e, w')
                     | (Inr u, w') \<Rightarrow> (Inr u, w'))
              in case os_remove paths_list_file_path w3 of
                   (Inl e, w4) \<Rightarrow> (Inl e, w4)
                 | (Inr _, w4) \<Rightarrow> (outcome, w4)))"

definition run_kmc_subtract :: "executor \<Rightarrow> string \<Rightarrow> string \<Rightarrow> string \<Rightarrow> string io" where
  "run_kmc_subtract exec kmc_db_a kmc_db_b kmc_cmd w =
     (let out_path = kmc_db_a @ ''_only'';
          subtract_cmd = [kmc_cmd @ ''_tools'', ''simple'', kmc_db_a, kmc_db_b,
                          ''kmers_subtract'', out_path]
      in case check_call exec subtract_cmd w of
           (Inl e, w') \<Rightarrow> (Inl e, w')
         | (Inr _, w') \<Rightarrow> (Inr out_path, w'))"

definition dump_command :: "string \<Rightarrow> int \<Rightarrow> int \<Rightarrow> string \<Rightarrow> path \<Rightarrow> command" where
  "dump_command kmc_cmd min_count max_count kmc_db out_path =
     [kmc_cmd @ ''_dump'', ''-ci'' @ str_int min_count, ''-cx'' @ str_int max_count,
      kmc_db, out_path]"

text \<open>Lines 225-228: the counter goes up by one for each line of the file.\<close>

definition count_lines :: "line list \<Rightarrow> int" where
  "count_lines ls = foldl (\<lambda>num_lines l. num_lines + 1) 0 ls"

definition run_kmc_dump ::
  "executor \<Rightarrow> string \<Rightarrow> path \<Rightarrow> int \<Rightarrow> int \<Rightarrow> string \<Rightarrow> int io" where
  "run_kmc_dump exec kmc_db out_path min_count max_count kmc_cmd w =
     (let dump_cmd = dump_command kmc_cmd min_count max_count kmc_db out_path
      in case check_call exec dump_cmd w of
           (Inl e, w') \<Rightarrow> (Inl e, w')
         | (Inr _, w') \<Rightarrow>
             (case files w' out_path of
                None \<Rightarrow> (Inl FileNotFoundError, w')
              | Some ls \<Rightarrow> (Inr (count_lines ls), w')))"

section \<open>parse_args and main\<close>

text \<open>
  The namespace \<open>parse_args\<close> returns is a table from attribute names to values. The
  command-line parser itself is not modelled: \<open>command_line\<close> holds the value it parsed
  (or the default) for each \<open>add_argument\<close> call of lines 30-60, and \<open>parse_args\<close>
  stores each under the attribute name the parser derives from the option strings: the
  first long option without its leading dashes, else the first option string without
  them, each \<open>-\<close> inside replaced by \<open>_\<close>.
\<close>

datatype pyval = PInt int | PStr string | PList "string list"

type_synonym namespace = "string \<rightharpoonup> pyval"

record command_line =
  arg_k :: int
  arg_l :: int
  arg_u :: int
  arg_path_to_kmc :: string
  arg_p :: int
  arg_o :: string
  arg_s :: string
  arg_read_files :: "string list"

definition long_option :: "string \<Rightarrow> bool" where
  "long_option s = (take 2 s = ''--'')"

definition attribute_name :: "string \<Rightarrow> string" where
  "attribute_name s =
     map (\<lambda>c. if c = CHR ''-'' then CHR ''_'' else c) (dropWhile (\<lambda>c. c = CHR ''-'') s)"

definition dest :: "string list \<Rightarrow> string" where
  "dest option_strings =
     (case filter long_option option_strings of
        s # _ \<Rightarrow> attribute_name s
      | [] \<Rightarrow> (case option_strings of s # _ \<Rightarrow> attribute_name s | [] \<Rightarrow> []))"

definition parse_args :: "command_line \<Rightarrow> namespace" where
  "parse_args cl =
     map_of
       [(dest [''-k'', ''--kmer-size''], PInt (arg_k cl)),
        (dest [''-l'', ''--count_lower''], PInt (arg_l cl)),
        (dest [''-u'', ''--count_upper''], PInt (arg_u cl)),
        (dest [''--path-to-kmc''], PStr (arg_path_to_kmc cl)),
        (dest [''-p'', ''--threads''], PInt (arg_p cl)),
        (dest [''-o'', ''--outpath''], PStr (arg_o cl)),
        (dest [''-s'', ''--scratch-dir''], PStr (arg_s cl)),
        (dest [''read_files''], PList (arg_read_files cl))]"

text \<open>Sequencing of steps that may raise.\<close>

definition io_return :: "'a \<Rightarrow> 'a io" where
  "io_return x w = (Inr x, w)"

definition io_raise :: "exn \<Rightarrow> 'a io" where
  "io_raise e w = (Inl e, w)"

definition io_bind :: "'a io \<Rightarrow> ('a \<Rightarrow> 'b io) \<Rightarrow> 'b io" where
  "io_bind m f w = (case m w of (Inl e, w') \<Rightarrow> (Inl e, w') | (Inr x, w') \<Rightarrow> f x w')"

definition io_print :: "string \<Rightarrow> unit io" where
  "io_print s w = (Inr (), eprint s w)"

text \<open>
  Attribute access \<open>args.name\<close>: AttributeError when the namespace has no such
  attribute. The three readers give the value at the type its use needs; \<open>parse_args\<close>
  stores no value of another type, for which the use would raise TypeError.
\<close>

definition attr_int :: "namespace \<Rightarrow> string \<Rightarrow> int io" where
  "attr_int args name =
     (case args name of
        None \<Rightarrow> io_raise (AttributeError name)
      | Some (PInt i) \<Rightarrow> io_return i
      | Some _ \<Rightarrow> io_raise TypeError)"

definition attr_str :: "namespace \<Rightarrow> string \<Rightarrow> string io" where
  "attr_str args name =
     (case args name of
        None \<Rightarrow> io_raise (AttributeError name)
      | Some (PStr s) \<Rightarrow> io_return s
      | Some _ \<Rightarrow> io_raise TypeError)"

definition attr_list :: "namespace \<Rightarrow> string \<Rightarrow> string list io" where
  "attr_list args name =
     (case args name of
        None \<Rightarrow> io_raise (AttributeError name)
      | Some (PList xs) \<Rightarrow> io_return xs
      | Some _ \<Rightarrow> io_raise TypeError)"

text \<open>\<open>s.split(",")\<close>.\<close>

fun split_on :: "char \<Rightarrow> string \<Rightarrow> string list" where
  "split_on c [] = [[]]"
| "split_on c (x # xs) =
     (if x = c then [] # split_on c xs
      else (case split_on c xs of y # ys \<Rightarrow> (x # y) # ys | [] \<Rightarrow> [[x]]))"

text \<open>\<open>os.path.join(a, b)\<close> for a relative \<open>b\<close>.\<close>

definition path_join :: "string \<Rightarrow> string \<Rightarrow> string" where
  "path_join a b = (if a = [] \<or> last a = CHR ''/'' then a @ b else a @ ''/'' @ b)"

definition green :: "string \<Rightarrow> string" where
  "green s = [CHR 0x1B] @ ''[92m'' @ s @ [CHR 0x1B] @ ''[0m''"

definition blue :: "string \<Rightarrow> string" where
  "blue s = [CHR 0x1B] @ ''[94m'' @ s @ [CHR 0x1B] @ ''[0m''"

text \<open>Lines 253-261: the count range of one library.\<close>

definition count_range :: "executor \<Rightarrow> generator \<Rightarrow> namespace \<Rightarrow> string \<Rightarrow> (int \<times> int) io" where
  "count_range exec rnd args outfile_path =
     io_bind (attr_int args ''l'') (\<lambda>l.
     io_bind (attr_int args ''u'') (\<lambda>u.
       if l = u \<and> u = 0 then
         io_bind (io_print (green ''Computing and analyzing histogram...'')) (\<lambda>_.
         io_bind (attr_str args ''path_to_kmc'') (\<lambda>path_to_kmc.
         io_bind (attr_str args ''scratch_dir'') (\<lambda>scratch_dir.
           analyze_histogram exec rnd outfile_path path_to_kmc scratch_dir)))
       else
         io_bind (attr_int args ''l'') (\<lambda>min_count.
         io_bind (attr_int args ''u'') (\<lambda>max_count.
           io_return (min_count, max_count)))))"

text \<open>Lines 238-270: the body of the loop over the two libraries; its value is the
  entry appended to \<open>kmc_databases\<close>.\<close>

definition count_library ::
  "executor \<Rightarrow> generator \<Rightarrow> namespace \<Rightarrow> string \<times> string \<Rightarrow> (string \<times> int \<times> int) io" where
  "count_library exec rnd args = (\<lambda>(hap_ID, haplotype_files_string).
     io_bind (io_print (green (''Counting k-mers in haplotype '' @ hap_ID @ ''...''))) (\<lambda>_.
     let haplotype_files = split_on CHR '','' haplotype_files_string in
     io_bind (attr_str args ''outpath'') (\<lambda>outpath.
     let outfile_path = outpath @ ''/haplotype'' @ hap_ID in
     io_bind (attr_int args ''kmer_size'') (\<lambda>kmer_size.
     io_bind (attr_int args ''threads'') (\<lambda>threads.
     io_bind (attr_str args ''path_to_kmc'') (\<lambda>path_to_kmc.
     io_bind (attr_str args ''scratch_dir'') (\<lambda>scratch_dir.
     io_bind (run_kmc exec rnd haplotype_files outfile_path kmer_size threads
                path_to_kmc scratch_dir) (\<lambda>_.
     io_bind (count_range exec rnd args outfile_path) (\<lambda>(min_count, max_count).
     io_bind (io_print (green (''Using counts in range ['' @ str_int min_count @ '','' @
                str_int max_count @ ''].''))) (\<lambda>_.
     io_return (outfile_path, min_count, max_count)))))))))))"

fun count_libraries ::
  "executor \<Rightarrow> generator \<Rightarrow> namespace \<Rightarrow> (string \<times> string) list \<Rightarrow>
   (string \<times> int \<times> int) list \<Rightarrow> (string \<times> int \<times> int) list io" where
  "count_libraries exec rnd args [] kmc_databases = io_return kmc_databases"
| "count_libraries exec rnd args (x # xs) kmc_databases =
     io_bind (count_library exec rnd args x) (\<lambda>db.
       count_libraries exec rnd args xs (kmc_databases @ [db]))"

text \<open>Lines 276-298 for one library: subtract the other database, dump the rest.\<close>

definition unique_kmers ::
  "executor \<Rightarrow> namespace \<Rightarrow> string \<Rightarrow> string \<Rightarrow> string \<Rightarrow> string \<Rightarrow> int \<Rightarrow> int \<Rightarrow> int io" where
  "unique_kmers exec args hap_ID out_name kmc_db kmc_db_other min_count max_count =
     io_bind (io_print (green (''Finding k-mers unique to haplotype '' @ hap_ID @ ''...''))) (\<lambda>_.
     io_bind (attr_str args ''path_to_kmc'') (\<lambda>path_to_kmc.
     io_bind (run_kmc_subtract exec kmc_db kmc_db_other path_to_kmc) (\<lambda>hap_only_db.
     io_bind (io_print (green ''Dumping k-mers unique to haplotype A...'')) (\<lambda>_.
     io_bind (attr_str args ''outpath'') (\<lambda>outpath.
     io_bind (attr_str args ''path_to_kmc'') (\<lambda>path_to_kmc'.
       run_kmc_dump exec hap_only_db (path_join outpath out_name) min_count max_count
         path_to_kmc'))))))"

definition main :: "executor \<Rightarrow> generator \<Rightarrow> command_line \<Rightarrow> unit io" where
  "main exec rnd cl =
     (let args = parse_args cl in
      io_bind (attr_list args ''read_files'') (\<lambda>read_files.
      io_bind (count_libraries exec rnd args (zip [''A'', ''B''] read_files) []) (\<lambda>kmc_databases.
        case kmc_databases of
          (kmc_db_a, min_count_a, max_count_a) # (kmc_db_b, min_count_b, max_count_b) # _ \<Rightarrow>
            io_bind (unique_kmers exec args ''A'' ''hapA_only_kmers.txt'' kmc_db_a kmc_db_b
                       min_count_a max_count_a) (\<lambda>hap_a_num_kmers.
            io_bind (unique_kmers exec args ''B'' ''hapB_only_kmers.txt'' kmc_db_b kmc_db_a
                       min_count_b max_count_b) (\<lambda>hap_b_num_kmers.
            io_bind (io_print ([CHR 0x0A, CHR 0x0A] @
                       blue (''# of unique k-mers in haplotype A: '' @
                             str_int hap_a_num_kmers))) (\<lambda>_.
            io_print (blue (''# of unique k-mers in haplotype B: '' @
                            str_int hap_b_num_kmers)))))
        | _ \<Rightarrow> io_raise IndexError)))"

section \<open>Example runs\<close>

text \<open>
  Concrete worlds and external tools on which the functions are run below: a world with
  no files in which file output succeeds, the same world in which one string cannot be
  printed to a file, a generator that always draws 42, a histogram tool that writes a given
  histogram to the path it is passed, a dump tool over a database given as (k-mer, count)
  pairs that writes the k-mers whose count lies within the bounds of its \<open>-ci\<close> and
  \<open>-cx\<close> options, a tool that exits with a given status and changes nothing, and a tool
  that cannot be started.
\<close>

definition empty_world :: world where
  "empty_world =
     \<lparr>files = Map.empty, stderr = [], draws = 0, io_error = (\<lambda>op. None)\<rparr>"


definition fixed_draw :: generator where
  "fixed_draw k a b = 42"

definition histogram_tool :: "histogram \<Rightarrow> executor" where
  "histogram_tool h cmd w =
     (if length cmd = 5 then Exited 0 (w\<lparr>files := (files w)(cmd ! 4 \<mapsto> histogram_lines h)\<rparr>)
      else NotFound)"

definition decimal :: "string \<Rightarrow> int" where
  "decimal s = foldl (\<lambda>n c. 10 * n + (of_char c - 48)) 0 s"

definition dump_tool :: "(string \<times> int) list \<Rightarrow> executor" where
  "dump_tool db cmd w =
     (if length cmd = 5 then
        let lo = decimal (drop 3 (cmd ! 1)); hi = decimal (drop 3 (cmd ! 2))
        in Exited 0 (w\<lparr>files := (files w)(cmd ! 4 \<mapsto>
             map (\<lambda>(kmer, count). Txt (kmer @ '' '' @ str_int count))
               (filter (\<lambda>(kmer, count). lo \<le> count \<and> count \<le> hi) db))\<rparr>)
      else NotFound)"

definition exiting_tool :: "int \<Rightarrow> executor" where
  "exiting_tool rc cmd w = Exited rc w"

definition missing_tool :: executor where
  "missing_tool cmd w = NotFound"

definition example_database :: "(string \<times> int) list" where
  "example_database =
     [(''AAAC'', 3), (''AAAG'', 3), (''AACT'', 1), (''AAGT'', 3), (''ACGT'', 3),
      (''AGCT'', 3), (''CATG'', 7), (''CCGG'', 3), (''GATC'', 3)]"

definition example_command_line :: command_line where
  "example_command_line =
     \<lparr>arg_k = 21, arg_l = 5, arg_u = 50, arg_path_to_kmc = ''kmc'', arg_p = 1,
      arg_o = ''.'', arg_s = ''.'', arg_read_files = [''a.fq'', ''b.fq'']\<rparr>"

section \<open>Properties of the scan\<close>

lemma visits_Cons: "visits l ((c, n) # h) = ((c, n), l) # visits n h"
  by (simp add: visits_def)

lemma visits_Nil: "visits l [] = []"
  by (simp add: visits_def)

lemma histogram_lines_Cons:
  "histogram_lines ((c, n) # h) = Fields [c, n] # histogram_lines h"
  by (simp add: histogram_lines_def)

lemma histogram_lines_Nil: "histogram_lines [] = []"
  by (simp add: histogram_lines_def)

lemma first_drop_Nil: "first_drop t [] = None"
  by (simp add: first_drop_def)

lemma first_drop_Cons:
  "first_drop t (((c, n), p) # vs) =
     (if c \<noteq> 2 \<and> n < t then Some ((c, n), p) else first_drop t vs)"
  by (simp add: first_drop_def drops_below_def)

lemma turn_from_Nil: "turn_from l [] = []"
  by (simp add: turn_from_def visits_def)

lemma turn_from_Cons:
  "turn_from l ((c, n) # h) =
     (if c \<noteq> 2 \<and> n > l \<and> c - 1 \<noteq> 0 then ((c, n), l) # visits n h
      else turn_from n h)"
  by (simp add: turn_from_def visits_def finds_min_def)

lemma turn_from_head: "turn_from l h = v # rest \<Longrightarrow> finds_min v"
  by (auto simp: turn_from_def dropWhile_eq_Cons_conv)

text \<open>
  Phase 2 of the scan: once \<open>min_coverage\<close> is set, the loop runs to the first entry off
  coverage 2 whose count is below the trough, and leaves \<open>min_coverage\<close> as it is.
\<close>

lemma scan_phase2:
  "min_coverage s \<noteq> 0 \<Longrightarrow> max_coverage s = 0 \<Longrightarrow> min_coverage_count s = Some t \<Longrightarrow>
   found (scan_lines s (histogram_lines h)) =
     Inr (min_coverage s,
          case first_drop t (visits l h) of None \<Rightarrow> 0 | Some ((c, n), p) \<Rightarrow> c)"
proof (induction h arbitrary: s l)
  case Nil
  then show ?case
    by (simp add: histogram_lines_Nil visits_Nil first_drop_Nil found_def)
next
  case (Cons e h)
  obtain c n where e: "e = (c, n)" by (cases e)
  show ?case
  proof (cases "c \<noteq> 2 \<and> n < t")
    case True
    with Cons.prems show ?thesis
      by (simp add: e histogram_lines_Cons visits_Cons first_drop_Cons loop_body_def found_def)
  next
    case False
    let ?s = "s\<lparr>last_count := n\<rparr>"
    from False Cons.prems have step: "loop_body s (Fields [c, n]) = Inr (Continue ?s)"
      by (auto simp: loop_body_def)
    have "found (scan_lines ?s (histogram_lines h)) =
            Inr (min_coverage ?s,
                 case first_drop t (visits n h) of None \<Rightarrow> 0 | Some ((c, n), p) \<Rightarrow> c)"
      using Cons.prems by (intro Cons.IH) simp_all
    with False step show ?thesis
      by (auto simp add: e histogram_lines_Cons visits_Cons first_drop_Cons)
  qed
qed

text \<open>
  Phase 1 of the scan: the loop runs to the first entry off coverage 2 whose count exceeds
  \<open>last_count\<close> and whose coverage is not 1, and goes on in phase 2 from there.
\<close>

lemma scan_phase1:
  "min_coverage s = 0 \<Longrightarrow> max_coverage s = 0 \<Longrightarrow> last_count s = l \<Longrightarrow>
   found (scan_lines s (histogram_lines h)) =
     (case turn_from l h of
        [] \<Rightarrow> Inr (0, 0)
      | ((c, n), p) # rest \<Rightarrow>
          Inr (c - 1, case first_drop p rest of None \<Rightarrow> 0 | Some ((c', n'), p') \<Rightarrow> c'))"
proof (induction h arbitrary: s l)
  case Nil
  then show ?case
    by (simp add: histogram_lines_Nil turn_from_Nil found_def)
next
  case (Cons e h)
  obtain c n where e: "e = (c, n)" by (cases e)
  show ?case
  proof (cases "c \<noteq> 2 \<and> n > l")
    case up: True
    let ?s = "s\<lparr>min_coverage := c - 1, min_coverage_count := Some l, last_count := n\<rparr>"
    from up Cons.prems have step: "loop_body s (Fields [c, n]) = Inr (Continue ?s)"
      by (auto simp: loop_body_def)
    show ?thesis
    proof (cases "c - 1 = 0")
      case True
      have "found (scan_lines ?s (histogram_lines h)) =
        (case turn_from n h of
          [] \<Rightarrow> Inr (0, 0)
        | ((c, n), p) # rest \<Rightarrow>
            Inr (c - 1, case first_drop p rest of None \<Rightarrow> 0 | Some ((c', n'), p') \<Rightarrow> c'))"
        using Cons.prems True by (intro Cons.IH) simp_all
      with True step show ?thesis
        by (auto simp add: e histogram_lines_Cons turn_from_Cons)
    next
      case False
      have "found (scan_lines ?s (histogram_lines h)) =
        Inr (min_coverage ?s,
             case first_drop l (visits n h) of None \<Rightarrow> 0 | Some ((c, n), p) \<Rightarrow> c)"
        using Cons.prems False by (intro scan_phase2) simp_all
      with False up step show ?thesis
        by (auto simp add: e histogram_lines_Cons turn_from_Cons)
    qed
  next
    case False
    let ?s = "s\<lparr>last_count := n\<rparr>"
    from False Cons.prems have step: "loop_body s (Fields [c, n]) = Inr (Continue ?s)"
      by (auto simp: loop_body_def)
    have "found (scan_lines ?s (histogram_lines h)) =
        (case turn_from n h of
          [] \<Rightarrow> Inr (0, 0)
        | ((c, n), p) # rest \<Rightarrow>
            Inr (c - 1, case first_drop p rest of None \<Rightarrow> 0 | Some ((c', n'), p') \<Rightarrow> c'))"
      using Cons.prems by (intro Cons.IH) simp_all
    with False step show ?thesis
      by (auto simp add: e histogram_lines_Cons turn_from_Cons)
  qed
qed


lemma first_turn_turn_from:
  "first_turn h = (case turn_from (- 1) h of [] \<Rightarrow> None | v # rest \<Rightarrow> Some (v, rest))"
  by (simp add: first_turn_def turn_from_def)

lemma histogram_range_found:
  "histogram_range cmd ls =
     (case found (scan_lines initial_scan ls) of
        Inl e \<Rightarrow> Inl e
      | Inr (mn, mx) \<Rightarrow> if mn = 0 \<or> mx = 0 then Inl (HistogramError cmd) else Inr (mn, mx))"
  by (simp add: histogram_range_def found_def split: sum.splits)

lemma histogram_range_two_phase:
  "histogram_range cmd (histogram_lines h) = two_phase_range cmd h"
proof -
  have init: "min_coverage initial_scan = 0" "max_coverage initial_scan = 0"
    "last_count initial_scan = - 1"
    by (simp_all add: initial_scan_def)
  note p1 = scan_phase1 [OF init, of h]
  show ?thesis
  proof (cases "turn_from (- 1) h")
    case Nil
    with p1 show ?thesis
      by (simp add: histogram_range_found two_phase_range_def first_turn_turn_from)
  next
    case (Cons v rest)
    obtain c n p where v: "v = ((c, n), p)" by (cases v) auto
    from Cons have "finds_min v" by (rule turn_from_head)
    then have nz: "c - 1 \<noteq> 0" by (simp add: v finds_min_def)
    with p1 Cons v show ?thesis
      by (simp add: histogram_range_found two_phase_range_def first_turn_turn_from
          split: option.splits)
  qed
qed


lemma loop_body_Continue_max:
  "loop_body s l = Inr (Continue s') \<Longrightarrow> max_coverage s' = max_coverage s"
  by (auto simp: loop_body_def split: sum.splits if_splits option.splits)

text \<open>A scan that ends with \<open>max_coverage\<close> set has left the loop by \<open>break\<close>: the
  lines that follow are not read.\<close>

lemma scan_lines_stops:
  "scan_lines s ls = Inr s' \<Longrightarrow> max_coverage s = 0 \<Longrightarrow> max_coverage s' \<noteq> 0 \<Longrightarrow>
   scan_lines s (ls @ extra) = Inr s'"
proof (induction ls arbitrary: s)
  case Nil
  then show ?case by simp
next
  case (Cons l ls)
  show ?case
  proof (cases "loop_body s l")
    case (Inl e)
    with Cons.prems show ?thesis by simp
  next
    case (Inr f)
    show ?thesis
    proof (cases f)
      case (Break s1)
      with Inr Cons.prems show ?thesis by simp
    next
      case (Continue s1)
      with Inr have "max_coverage s1 = max_coverage s"
        by (simp add: loop_body_Continue_max)
      with Cons.prems Inr Continue have "scan_lines s1 (ls @ extra) = Inr s'"
        by (intro Cons.IH) simp_all
      with Inr Continue show ?thesis by simp
    qed
  qed
qed

lemma histogram_range_stops:
  assumes "histogram_range cmd ls = Inr r"
  shows "histogram_range cmd (ls @ extra) = Inr r"
proof -
  from assms obtain s where s: "scan_lines initial_scan ls = Inr s"
    and nz: "max_coverage s \<noteq> 0" and r: "r = (min_coverage s, max_coverage s)"
    and mz: "min_coverage s \<noteq> 0"
    by (auto simp: histogram_range_def split: sum.splits if_splits)
  have "max_coverage initial_scan = 0" by (simp add: initial_scan_def)
  with s nz have "scan_lines initial_scan (ls @ extra) = Inr s"
    by (intro scan_lines_stops)
  with nz mz r show ?thesis by (simp add: histogram_range_def)
qed

text \<open>
  Claim C1, as amended. For every histogram, whatever the order of its coverages,
  \<open>analyze_histogram\<close> sets \<open>min_coverage\<close> to coverage - 1 at the first entry off
  coverage 2 whose count strictly exceeds the previous recorded count (-1 before the first
  entry) and whose coverage is not 1: at coverage 1 the value it computes is 0, which
  counts as not found, and the search for the minimum goes on. It keeps that previous
  count as the trough frequency, stops at the first later entry off coverage 2 whose count
  is strictly below the trough frequency, and returns the pair of the minimum and that
  coverage when that coverage is not 0; in every other case it raises HistogramError.
  Lines after the one where it stops are not read: appending any lines to a histogram
  for which a pair is returned leaves the pair as it is.
\<close>

theorem C1_two_phase:
  "histogram_range cmd (histogram_lines h) = two_phase_range cmd h \<and>
   (two_phase_range cmd h = Inr r \<longrightarrow>
      histogram_range cmd (histogram_lines h @ extra) = Inr r)"
  using histogram_range_stops [of cmd "histogram_lines h" r extra]
  by (simp add: histogram_range_two_phase)

lemma example_two_phase:
  "two_phase_range cmd [(1, 10), (2, 5), (3, 3), (4, 7), (5, 9), (6, 2)] = Inr (3, 6)"
  by (simp add: two_phase_range_def first_turn_def first_drop_def visits_def finds_min_def
      drops_below_def)

theorem C1_two_phase_witness:
  "two_phase_range [] [(1, 10), (2, 5), (3, 3), (4, 7), (5, 9), (6, 2)] = Inr (3, 6) \<and>
   histogram_range [] (histogram_lines [(1, 10), (2, 5), (3, 3), (4, 7), (5, 9), (6, 2)]) =
     Inr (3, 6) \<and>
   histogram_range []
     (histogram_lines [(1, 10), (2, 5), (3, 3), (4, 7), (5, 9), (6, 2)] @ [Txt ''end'']) =
     Inr (3, 6)"
  using C1_two_phase [of "[]" "[(1, 10), (2, 5), (3, 3), (4, 7), (5, 9), (6, 2)]" "(3, 6)"
      "[Txt ''end'']"]
  by (simp add: example_two_phase)

text \<open>
  Claim C1 as stated fails, however the previous recorded count at the first entry is
  read. On the histogram (1,10) (2,5) (3,3) (4,7) (5,9) (6,2) the code returns (3, 6).
  With the seed -1 as the previous count, the first entry off coverage 2 whose count
  exceeds the previous one is the very first, (1,10): the claim puts the minimum there,
  at 0 with trough -1, below which no count drops. On the histogram (3,10) (4,5) (5,8)
  (6,2) the code sets the minimum at the first entry, with trough -1, and raises
  HistogramError. With the comparisons starting at the second entry, the claim puts the
  minimum at (5,8) and the maximum at (6,2), the pair (4, 6).
\<close>

theorem C1_counterexample:
  "histogram_range [] (histogram_lines [(1, 10), (2, 5), (3, 3), (4, 7), (5, 9), (6, 2)]) =
     Inr (3, 6) \<and>
   claimed_range [] [(1, 10), (2, 5), (3, 3), (4, 7), (5, 9), (6, 2)] =
     Inl (HistogramError []) \<and>
   histogram_range [] (histogram_lines [(3, 10), (4, 5), (5, 8), (6, 2)]) =
     Inl (HistogramError []) \<and>
   claimed_range_unseeded [] [(3, 10), (4, 5), (5, 8), (6, 2)] = Inr (4, 6)"
  by (simp add: histogram_range_def histogram_lines_def loop_body_def initial_scan_def
      claimed_range_def claimed_range_unseeded_def claimed_range_from_def visits_def
      turns_up_def drops_below_def)

lemma first_drop_Some:
  "first_drop t rest = Some ((c, n), p) \<Longrightarrow> ((c, n), p) \<in> set rest \<and> n < t"
proof (induction rest)
  case Nil
  then show ?case by (simp add: first_drop_Nil)
next
  case (Cons v rest)
  obtain c0 n0 p0 where v: "v = ((c0, n0), p0)" by (cases v) auto
  from Cons show ?case
    by (auto simp: v first_drop_Cons split: if_splits)
qed

lemma visits_set: "v \<in> set (visits l h) \<Longrightarrow> fst v \<in> set h"
  by (cases v) (auto simp: visits_def dest: set_zip_leftD)

lemma turn_from_sorted:
  "turn_from l h = ((c, n), p) # rest \<Longrightarrow> sorted_wrt (<) (map fst h) \<Longrightarrow>
   \<forall>x \<in> set h. lb \<le> fst x \<Longrightarrow>
   lb \<le> c \<and> (\<forall>v \<in> set rest. c < fst (fst v) \<and> fst v \<in> set h) \<and>
   (p = l \<or> (lb < c \<and> p \<in> snd ` set h))"
proof (induction h arbitrary: l lb)
  case Nil
  then show ?case by (simp add: turn_from_Nil)
next
  case (Cons e h)
  obtain c0 n0 where e: "e = (c0, n0)" by (cases e)
  show ?case
  proof (cases "c0 \<noteq> 2 \<and> n0 > l \<and> c0 - 1 \<noteq> 0")
    case True
    with Cons.prems(1) have eq: "c = c0" "n = n0" "p = l" "rest = visits n0 h"
      by (auto simp: e turn_from_Cons)
    have "\<forall>v \<in> set rest. c < fst (fst v) \<and> fst v \<in> set (e # h)"
    proof
      fix v assume "v \<in> set rest"
      then have "fst v \<in> set h" unfolding eq by (rule visits_set)
      with Cons.prems(2) show "c < fst (fst v) \<and> fst v \<in> set (e # h)"
        by (auto simp: e eq)
    qed
    with Cons.prems(3) show ?thesis by (simp add: e eq)
  next
    case False
    with Cons.prems(1) have t: "turn_from n0 h = ((c, n), p) # rest"
      by (auto simp: e turn_from_Cons split: if_splits)
    from Cons.prems(2) have srt: "sorted_wrt (<) (map fst h)"
      and above: "\<forall>x \<in> set h. c0 + 1 \<le> fst x"
      by (auto simp: e)
    from Cons.IH [OF t srt above]
    have ih: "c0 + 1 \<le> c" "\<forall>v \<in> set rest. c < fst (fst v) \<and> fst v \<in> set h"
      "p = n0 \<or> (c0 + 1 < c \<and> p \<in> snd ` set h)"
      by simp_all
    from Cons.prems(3) have "lb \<le> c0" by (simp add: e)
    with ih show ?thesis by (auto simp: e)
  qed
qed

text \<open>
  Claim C10. For every histogram whose coverages and counts are not negative and whose
  coverages increase strictly, a pair (min_coverage, max_coverage) that
  \<open>analyze_histogram\<close> returns has both components non-negative and
  min_coverage < max_coverage.
\<close>

theorem C10_range_ordered:
  assumes wf: "well_formed h"
    and ret: "histogram_range cmd (histogram_lines h) = Inr (mn, mx)"
  shows "0 \<le> mn \<and> 0 \<le> mx \<and> mn < mx"
proof -
  from wf have srt: "sorted_wrt (<) (map fst h)"
    and nonneg: "\<forall>x \<in> set h. 0 \<le> fst x \<and> 0 \<le> snd x"
    by (auto simp: well_formed_def list_all_iff)
  from ret have "two_phase_range cmd h = Inr (mn, mx)"
    by (simp add: histogram_range_two_phase)
  then obtain c n p rest c' n' p'
    where turn: "turn_from (- 1) h = ((c, n), p) # rest"
      and drop: "first_drop p rest = Some ((c', n'), p')"
      and mn: "mn = c - 1" and mx: "mx = c'"
    by (auto simp: two_phase_range_def first_turn_turn_from
        split: option.splits list.splits if_splits)
  from nonneg have lb: "\<forall>x \<in> set h. 0 \<le> fst x" by simp
  from turn_from_sorted [OF turn srt lb]
  have later: "\<forall>v \<in> set rest. c < fst (fst v) \<and> fst v \<in> set h"
    and trough: "p = - 1 \<or> (0 < c \<and> p \<in> snd ` set h)"
    and "0 \<le> c"
    by simp_all
  from first_drop_Some [OF drop] have d: "((c', n'), p') \<in> set rest" "n' < p"
    by simp_all
  with later have cc: "c < c'" and mem: "(c', n') \<in> set h" by force+
  from mem nonneg have "0 \<le> n'" by force
  with d have "0 < p" by simp
  with trough have "0 < c" by auto
  with cc show ?thesis by (simp add: mn mx)
qed

theorem C10_range_ordered_witness:
  "well_formed [(1, 10), (2, 5), (3, 3), (4, 7), (5, 9), (6, 2)] \<and>
   histogram_range [] (histogram_lines [(1, 10), (2, 5), (3, 3), (4, 7), (5, 9), (6, 2)]) =
     Inr (3, 6) \<and>
   (0::int) \<le> 3 \<and> (0::int) \<le> 6 \<and> (3::int) < 6"
proof -
  have wf: "well_formed [(1, 10), (2, 5), (3, 3), (4, 7), (5, 9), (6, 2)]"
    by (simp add: well_formed_def)
  have ret: "histogram_range []
      (histogram_lines [(1, 10), (2, 5), (3, 3), (4, 7), (5, 9), (6, 2)]) = Inr (3, 6)"
    by (simp add: histogram_range_two_phase example_two_phase)
  from C10_range_ordered [OF wf ret] wf ret show ?thesis by simp
qed

lemma histogram_range_nonzero:
  "histogram_range cmd ls = Inr (mn, mx) \<Longrightarrow> mn \<noteq> 0 \<and> mx \<noteq> 0"
  by (auto simp: histogram_range_def split: sum.splits if_splits)

lemma analyze_histogram_run:
  assumes run: "exec (histo_command kmc_path kmc_db (temp_histogram rnd scratch_path w))
                  (w\<lparr>draws := Suc (draws w)\<rparr>) = Exited 0 w'"
    and content: "files w' (temp_histogram rnd scratch_path w) = Some ls"
  shows "analyze_histogram exec rnd kmc_db kmc_path scratch_path w =
    (case histogram_range (histo_command kmc_path kmc_db (temp_histogram rnd scratch_path w)) ls of
       Inl e \<Rightarrow> (Inl e, w')
     | Inr (mn, mx) \<Rightarrow>
         if mx - mn < 5 then
           (Inr (mn, mx), eprint (low_coverage_warning (temp_histogram rnd scratch_path w)) w')
         else
           (Inr (mn, mx), w'\<lparr>files := (files w')(temp_histogram rnd scratch_path w := None)\<rparr>))"
  using run content
  by (simp add: analyze_histogram_def randint_def temp_histogram_def check_call_def
      os_remove_def split: sum.splits prod.splits)

section \<open>Properties of analyze_histogram\<close>

text \<open>
  Claim C5. \<open>analyze_histogram\<close> never returns a pair with a component equal to 0: zero
  is what \<open>not min_coverage\<close> and \<open>not max_coverage\<close> read as "not yet found", so
  whatever the external tool, the generator and the world, a pair that is returned has
  both components non-zero.
\<close>

theorem C5_never_zero:
  "fst (analyze_histogram exec rnd kmc_db kmc_path scratch_path w) = Inr (mn, mx) \<Longrightarrow>
   mn \<noteq> 0 \<and> mx \<noteq> 0"
  by (auto simp: analyze_histogram_def randint_def Let_def
      split: sum.splits prod.splits option.splits if_splits
      dest: histogram_range_nonzero)

lemma scan_after_two:
  assumes "next_count_at_most c c' post"
  shows "found (scan_lines (s\<lparr>last_count := c\<rparr>) (histogram_lines post)) =
         found (scan_lines (s\<lparr>last_count := c'\<rparr>) (histogram_lines post))"
proof (cases post)
  case Nil
  then show ?thesis by (simp add: histogram_lines_Nil found_def)
next
  case (Cons e rest)
  obtain cv ct where e: "e = (cv, ct)" by (cases e)
  from assms Cons e have "cv = 2 \<or> (ct \<le> c \<and> ct \<le> c')"
    by (simp add: next_count_at_most_def)
  then show ?thesis
    by (auto simp: Cons e histogram_lines_Cons loop_body_def found_def split: option.splits)
qed

lemma scan_count_at_two:
  assumes "next_count_at_most c c' post"
  shows "found (scan_lines s (histogram_lines (pre @ (2, c) # post))) =
         found (scan_lines s (histogram_lines (pre @ (2, c') # post)))"
proof (induction pre arbitrary: s)
  case Nil
  have "loop_body s (Fields [2, c]) = Inr (Continue (s\<lparr>last_count := c\<rparr>))"
    "loop_body s (Fields [2, c']) = Inr (Continue (s\<lparr>last_count := c'\<rparr>))"
    by (simp_all add: loop_body_def)
  with scan_after_two [OF assms, of s] show ?case
    by (simp add: histogram_lines_Cons)
next
  case (Cons e pre)
  obtain cv ct where e: "e = (cv, ct)" by (cases e)
  show ?case
  proof (cases "loop_body s (Fields [cv, ct])")
    case (Inl x)
    then show ?thesis by (simp add: e histogram_lines_Cons)
  next
    case (Inr f)
    with Cons.IH show ?thesis
      by (cases f) (simp_all add: e histogram_lines_Cons)
  qed
qed

text \<open>
  Claim C3, as amended. The entry at coverage 2 triggers no transition, but its count is
  recorded as \<open>last_count\<close> and is compared with the count of the next entry. Two
  histograms that differ only in the count at an entry of coverage 2 give the same result
  (the same pair, or the same exception) whenever that entry is the last one, or the entry
  after it is at coverage 2 as well, or the count of the entry after it exceeds neither
  of the two counts.
\<close>

theorem C3_count_at_two:
  assumes "next_count_at_most c c' post"
  shows "histogram_range cmd (histogram_lines (pre @ (2, c) # post)) =
         histogram_range cmd (histogram_lines (pre @ (2, c') # post))"
  using scan_count_at_two [OF assms, of initial_scan pre]
  by (simp add: histogram_range_found)

theorem C3_count_at_two_witness:
  "next_count_at_most 5 8 [(3, 3), (4, 7), (5, 9), (6, 2)] \<and>
   histogram_range [] (histogram_lines ([(1, 10)] @ (2, 5) # [(3, 3), (4, 7), (5, 9), (6, 2)])) =
   histogram_range [] (histogram_lines ([(1, 10)] @ (2, 8) # [(3, 3), (4, 7), (5, 9), (6, 2)]))"
proof -
  have h: "next_count_at_most 5 8 [(3, 3), (4, 7), (5, 9), (6, 2)]"
    by (simp add: next_count_at_most_def)
  from C3_count_at_two [OF h, of "[]" "[(1, 10)]"] h show ?thesis by simp
qed

text \<open>
  Claim C3 as stated fails. The histograms (1,10) (2,5) (3,7) (4,9) (5,2) and
  (1,10) (2,8) (3,7) (4,9) (5,2) differ only in the count at coverage 2. With 5 there,
  the count 7 at coverage 3 exceeds it and the minimum is found at once: (2, 5). With 8
  there it does not, and the minimum is found one entry later: (3, 5).
\<close>

theorem C3_counterexample:
  "histogram_range [] (histogram_lines [(1, 10), (2, 5), (3, 7), (4, 9), (5, 2)]) = Inr (2, 5) \<and>
   histogram_range [] (histogram_lines [(1, 10), (2, 8), (3, 7), (4, 9), (5, 2)]) = Inr (3, 5)"
  by (simp add: histogram_range_def histogram_lines_def loop_body_def initial_scan_def)

lemma str_int_42: "str_int 42 = ''42''"
  by (simp add: str_int_def digit_char_def)

lemma temp_example: "temp_histogram fixed_draw ''.'' empty_world = ''./42''"
  by (simp add: temp_histogram_def fixed_draw_def str_int_42)

lemma two_phase_both_found:
  "two_phase_range cmd h = Inl (HistogramError cmd) \<longleftrightarrow> \<not> both_found h"
  "(\<exists>mn mx. two_phase_range cmd h = Inr (mn, mx)) \<longleftrightarrow> both_found h"
  by (auto simp: two_phase_range_def both_found_def split: option.splits)

text \<open>
  Claim C4, as amended. Let the histogram tool exit with status 0 and leave the histogram
  \<open>h\<close> at the temporary path. Then \<open>analyze_histogram\<close> raises HistogramError, carrying
  the command that generated the histogram, if and only if the scan did not find both
  transitions, and returns a pair in every other case, where a transition is found only
  if the boundary it sets is non-zero: the minimum is found at the first entry off
  coverage 2 whose count exceeds the previous recorded count (-1 before the first entry)
  and whose coverage is not 1, the maximum at the first later entry off coverage 2 whose
  count is below the trough frequency, if its coverage is not 0.
\<close>

theorem C4_histogram_error:
  assumes run: "exec (histo_command kmc_path kmc_db (temp_histogram rnd scratch_path w))
                  (w\<lparr>draws := Suc (draws w)\<rparr>) = Exited 0 w'"
    and content: "files w' (temp_histogram rnd scratch_path w) = Some (histogram_lines h)"
  shows "(fst (analyze_histogram exec rnd kmc_db kmc_path scratch_path w) =
            Inl (HistogramError
                  (histo_command kmc_path kmc_db (temp_histogram rnd scratch_path w)))) =
           (\<not> both_found h) \<and>
         (\<exists>mn mx. fst (analyze_histogram exec rnd kmc_db kmc_path scratch_path w) =
            Inr (mn, mx)) = both_found h"
proof -
  let ?cmd = "histo_command kmc_path kmc_db (temp_histogram rnd scratch_path w)"
  have "analyze_histogram exec rnd kmc_db kmc_path scratch_path w =
    (case histogram_range ?cmd (histogram_lines h) of
       Inl e \<Rightarrow> (Inl e, w')
     | Inr (mn, mx) \<Rightarrow>
         if mx - mn < 5 then
           (Inr (mn, mx), eprint (low_coverage_warning (temp_histogram rnd scratch_path w)) w')
         else
           (Inr (mn, mx), w'\<lparr>files := (files w')(temp_histogram rnd scratch_path w := None)\<rparr>))"
    using run content by (rule analyze_histogram_run)
  then have "fst (analyze_histogram exec rnd kmc_db kmc_path scratch_path w) =
        two_phase_range ?cmd h"
    by (simp add: histogram_range_two_phase split: sum.splits)
  then show ?thesis
    by (simp add: two_phase_both_found)
qed

lemma histogram_tool_run:
  "histogram_tool h (histo_command kmc_path kmc_db t) w =
     Exited 0 (w\<lparr>files := (files w)(t \<mapsto> histogram_lines h)\<rparr>)"
  by (simp add: histogram_tool_def histo_command_def)

lemma example_flat_range:
  "both_found [(1, 10), (2, 5), (3, 3)] = False"
  by (simp add: both_found_def first_turn_def visits_def finds_min_def)

theorem C4_histogram_error_witness:
  "histogram_tool [(1, 10), (2, 5), (3, 3)]
     (histo_command ''kmc'' ''haplotypeA'' (temp_histogram fixed_draw ''.'' empty_world))
     (empty_world\<lparr>draws := Suc (draws empty_world)\<rparr>) =
     Exited 0 (empty_world\<lparr>draws := Suc (draws empty_world),
       files := (files empty_world)(''./42'' \<mapsto> histogram_lines [(1, 10), (2, 5), (3, 3)])\<rparr>) \<and>
   fst (analyze_histogram (histogram_tool [(1, 10), (2, 5), (3, 3)]) fixed_draw
          ''haplotypeA'' ''kmc'' ''.'' empty_world) =
     Inl (HistogramError [''kmc_tools'', ''transform'', ''haplotypeA'', ''histogram'', ''./42''])"
proof -
  let ?w' = "empty_world\<lparr>draws := Suc (draws empty_world),
       files := (files empty_world)(''./42'' \<mapsto> histogram_lines [(1, 10), (2, 5), (3, 3)])\<rparr>"
  have run: "histogram_tool [(1, 10), (2, 5), (3, 3)]
     (histo_command ''kmc'' ''haplotypeA'' (temp_histogram fixed_draw ''.'' empty_world))
     (empty_world\<lparr>draws := Suc (draws empty_world)\<rparr>) = Exited 0 ?w'"
    by (simp add: histogram_tool_run temp_example)
  have content: "files ?w' (temp_histogram fixed_draw ''.'' empty_world) =
      Some (histogram_lines [(1, 10), (2, 5), (3, 3)])"
    by (simp add: temp_example)
  from C4_histogram_error [of "histogram_tool [(1, 10), (2, 5), (3, 3)]", OF run content] run
  show ?thesis
    by (simp add: example_flat_range temp_example histo_command_def)
qed

lemma histogram_tool_analysis:
  "fst (analyze_histogram (histogram_tool h) fixed_draw ''haplotypeA'' ''kmc'' ''.''
          empty_world) =
   two_phase_range [''kmc_tools'', ''transform'', ''haplotypeA'', ''histogram'', ''./42''] h"
proof -
  let ?w' = "empty_world\<lparr>draws := Suc (draws empty_world),
       files := (files empty_world)(''./42'' \<mapsto> histogram_lines h)\<rparr>"
  have run: "histogram_tool h
     (histo_command ''kmc'' ''haplotypeA'' (temp_histogram fixed_draw ''.'' empty_world))
     (empty_world\<lparr>draws := Suc (draws empty_world)\<rparr>) = Exited 0 ?w'"
    by (simp add: histogram_tool_run temp_example)
  have content: "files ?w' (temp_histogram fixed_draw ''.'' empty_world) =
      Some (histogram_lines h)"
    by (simp add: temp_example)
  from analyze_histogram_run [of "histogram_tool h", OF run content] show ?thesis
    by (simp add: histogram_range_two_phase temp_example histo_command_def
        split: sum.splits)
qed

text \<open>
  Claim C4 as stated fails, however the previous recorded count at the first entry is
  read. On the histogram (1,10) (2,5) (3,3) (4,7) (5,9) (6,2) the count of the first
  entry exceeds the seed -1, so with the seed the minimum is found there, with trough -1,
  and no count drops below it: the claim has HistogramError raised, the code returns
  (3, 6). On the histogram (3,10) (4,5) (5,8) (6,2), with the comparisons starting at the
  second entry, the curve turns upward at (5,8) and drops below the trough 5 at (6,2):
  the claim has a range returned, the code raises HistogramError.
\<close>

theorem C4_counterexample:
  "fst (analyze_histogram
          (histogram_tool [(1, 10), (2, 5), (3, 3), (4, 7), (5, 9), (6, 2)])
          fixed_draw ''haplotypeA'' ''kmc'' ''.'' empty_world) = Inr (3, 6) \<and>
   claimed_failure [(1, 10), (2, 5), (3, 3), (4, 7), (5, 9), (6, 2)] \<and>
   fst (analyze_histogram (histogram_tool [(3, 10), (4, 5), (5, 8), (6, 2)])
          fixed_draw ''haplotypeA'' ''kmc'' ''.'' empty_world) =
     Inl (HistogramError [''kmc_tools'', ''transform'', ''haplotypeA'', ''histogram'', ''./42'']) \<and>
   \<not> claimed_failure_unseeded [(3, 10), (4, 5), (5, 8), (6, 2)]"
  by (simp add: histogram_tool_analysis two_phase_range_def first_turn_def first_drop_def
      visits_def finds_min_def drops_below_def turns_up_def claimed_failure_def
      claimed_failure_unseeded_def claimed_failure_from_def)

lemma example_analysis:
  "analyze_histogram (histogram_tool [(1, 10), (2, 5), (3, 3), (4, 7), (5, 9), (6, 2)])
     fixed_draw ''haplotypeA'' ''kmc'' ''.'' empty_world =
   (Inr (3, 6),
    eprint (low_coverage_warning ''./42'')
      (empty_world\<lparr>draws := Suc (draws empty_world),
         files := (files empty_world)(''./42'' \<mapsto>
           histogram_lines [(1, 10), (2, 5), (3, 3), (4, 7), (5, 9), (6, 2)])\<rparr>))"
proof -
  let ?h = "[(1, 10), (2, 5), (3, 3), (4, 7), (5, 9), (6, 2)] :: histogram"
  let ?w' = "empty_world\<lparr>draws := Suc (draws empty_world),
       files := (files empty_world)(''./42'' \<mapsto> histogram_lines ?h)\<rparr>"
  have run: "histogram_tool ?h
     (histo_command ''kmc'' ''haplotypeA'' (temp_histogram fixed_draw ''.'' empty_world))
     (empty_world\<lparr>draws := Suc (draws empty_world)\<rparr>) = Exited 0 ?w'"
    by (simp add: histogram_tool_run temp_example)
  have content: "files ?w' (temp_histogram fixed_draw ''.'' empty_world) =
      Some (histogram_lines ?h)"
    by (simp add: temp_example)
  from analyze_histogram_run [of "histogram_tool ?h", OF run content] show ?thesis
    by (simp add: histogram_range_two_phase example_two_phase temp_example)
qed

theorem C5_never_zero_witness:
  "fst (analyze_histogram (histogram_tool [(1, 10), (2, 5), (3, 3), (4, 7), (5, 9), (6, 2)])
          fixed_draw ''haplotypeA'' ''kmc'' ''.'' empty_world) = Inr (3, 6) \<and>
   (3::int) \<noteq> 0 \<and> (6::int) \<noteq> 0"
proof -
  have ret: "fst (analyze_histogram
      (histogram_tool [(1, 10), (2, 5), (3, 3), (4, 7), (5, 9), (6, 2)])
      fixed_draw ''haplotypeA'' ''kmc'' ''.'' empty_world) = Inr (3, 6)"
    by (simp add: example_analysis)
  from C5_never_zero [OF ret] ret show ?thesis by simp
qed

text \<open>
  Claim C6. Let the histogram tool exit with status 0, leaving the world \<open>w'\<close> with the
  lines \<open>ls\<close> at the temporary path, and let the scan of \<open>ls\<close> find the range
  (min_coverage, max_coverage). Then \<open>analyze_histogram\<close> returns that range. If
  max_coverage - min_coverage < 5, the files are those of \<open>w'\<close>, the temporary histogram
  among them, and one line is added to the error stream: the warning of lines 162-164,
  which names the path of the temporary histogram. Otherwise the files are those of
  \<open>w'\<close> without the temporary histogram, and nothing is printed.
\<close>

theorem C6_histogram_file:
  assumes run: "exec (histo_command kmc_path kmc_db (temp_histogram rnd scratch_path w))
                  (w\<lparr>draws := Suc (draws w)\<rparr>) = Exited 0 w'"
    and content: "files w' (temp_histogram rnd scratch_path w) = Some ls"
    and range: "histogram_range
                  (histo_command kmc_path kmc_db (temp_histogram rnd scratch_path w)) ls =
                Inr (mn, mx)"
  shows "fst (analyze_histogram exec rnd kmc_db kmc_path scratch_path w) = Inr (mn, mx) \<and>
    (mx - mn < 5 \<longrightarrow>
       files (snd (analyze_histogram exec rnd kmc_db kmc_path scratch_path w)) = files w' \<and>
       files (snd (analyze_histogram exec rnd kmc_db kmc_path scratch_path w))
         (temp_histogram rnd scratch_path w) = Some ls \<and>
       stderr (snd (analyze_histogram exec rnd kmc_db kmc_path scratch_path w)) =
         stderr w' @
         [''WARNING: min and max coverage not very far apart. This may be '' @
          ''a result of coverage being too low. Try taking a look at '' @
          ''the histogram in \"'' @ temp_histogram rnd scratch_path w @ ''\" yourself.'']) \<and>
    (5 \<le> mx - mn \<longrightarrow>
       files (snd (analyze_histogram exec rnd kmc_db kmc_path scratch_path w)) =
         (files w')(temp_histogram rnd scratch_path w := None) \<and>
       stderr (snd (analyze_histogram exec rnd kmc_db kmc_path scratch_path w)) = stderr w')"
proof -
  have "analyze_histogram exec rnd kmc_db kmc_path scratch_path w =
    (case histogram_range (histo_command kmc_path kmc_db (temp_histogram rnd scratch_path w)) ls of
       Inl e \<Rightarrow> (Inl e, w')
     | Inr (mn, mx) \<Rightarrow>
         if mx - mn < 5 then
           (Inr (mn, mx), eprint (low_coverage_warning (temp_histogram rnd scratch_path w)) w')
         else
           (Inr (mn, mx), w'\<lparr>files := (files w')(temp_histogram rnd scratch_path w := None)\<rparr>))"
    using run content by (rule analyze_histogram_run)
  with range content show ?thesis
    by (simp add: eprint_def low_coverage_warning_def)
qed

lemma example_wide_range:
  "two_phase_range cmd
     [(1, 10), (2, 5), (3, 3), (4, 7), (5, 9), (6, 8), (7, 7), (8, 6), (9, 5), (10, 2)] =
   Inr (3, 10)"
  by (simp add: two_phase_range_def first_turn_def first_drop_def visits_def finds_min_def
      drops_below_def)

lemma empty_world_fields:
  "files empty_world = Map.empty" "stderr empty_world = []" "draws empty_world = 0"
  "io_error empty_world = (\<lambda>op. None)"
  by (simp_all add: empty_world_def)

theorem C6_histogram_file_witness:
  "fst (analyze_histogram (histogram_tool [(1, 10), (2, 5), (3, 3), (4, 7), (5, 9), (6, 2)])
          fixed_draw ''haplotypeA'' ''kmc'' ''.'' empty_world) = Inr (3, 6) \<and>
   (6::int) - 3 < 5 \<and>
   files (snd (analyze_histogram
          (histogram_tool [(1, 10), (2, 5), (3, 3), (4, 7), (5, 9), (6, 2)])
          fixed_draw ''haplotypeA'' ''kmc'' ''.'' empty_world)) ''./42'' =
     Some (histogram_lines [(1, 10), (2, 5), (3, 3), (4, 7), (5, 9), (6, 2)]) \<and>
   stderr (snd (analyze_histogram
          (histogram_tool [(1, 10), (2, 5), (3, 3), (4, 7), (5, 9), (6, 2)])
          fixed_draw ''haplotypeA'' ''kmc'' ''.'' empty_world)) =
     [''WARNING: min and max coverage not very far apart. This may be a result of '' @
      ''coverage being too low. Try taking a look at the histogram in \"./42\" yourself.''] \<and>
   fst (analyze_histogram
          (histogram_tool
            [(1, 10), (2, 5), (3, 3), (4, 7), (5, 9), (6, 8), (7, 7), (8, 6), (9, 5), (10, 2)])
          fixed_draw ''haplotypeA'' ''kmc'' ''.'' empty_world) = Inr (3, 10) \<and>
   (5::int) \<le> 10 - 3 \<and>
   files (snd (analyze_histogram
          (histogram_tool
            [(1, 10), (2, 5), (3, 3), (4, 7), (5, 9), (6, 8), (7, 7), (8, 6), (9, 5), (10, 2)])
          fixed_draw ''haplotypeA'' ''kmc'' ''.'' empty_world)) ''./42'' = None \<and>
   stderr (snd (analyze_histogram
          (histogram_tool
            [(1, 10), (2, 5), (3, 3), (4, 7), (5, 9), (6, 8), (7, 7), (8, 6), (9, 5), (10, 2)])
          fixed_draw ''haplotypeA'' ''kmc'' ''.'' empty_world)) = []"
proof -
  let ?narrow = "[(1, 10), (2, 5), (3, 3), (4, 7), (5, 9), (6, 2)] :: histogram"
  let ?wide = "[(1, 10), (2, 5), (3, 3), (4, 7), (5, 9), (6, 8), (7, 7), (8, 6), (9, 5),
    (10, 2)] :: histogram"
  let ?t = "temp_histogram fixed_draw ''.'' empty_world"
  let ?cmd = "histo_command ''kmc'' ''haplotypeA'' ?t"
  let ?w = "\<lambda>h. empty_world\<lparr>draws := Suc (draws empty_world),
       files := (files empty_world)(?t \<mapsto> histogram_lines h)\<rparr>"
  have run: "histogram_tool h ?cmd (empty_world\<lparr>draws := Suc (draws empty_world)\<rparr>) =
      Exited 0 (?w h)" for h
    by (simp add: histogram_tool_run)
  have content: "files (?w h) ?t = Some (histogram_lines h)" for h
    by simp
  have narrow: "histogram_range ?cmd (histogram_lines ?narrow) = Inr (3, 6)"
    by (simp add: histogram_range_two_phase example_two_phase)
  have wide: "histogram_range ?cmd (histogram_lines ?wide) = Inr (3, 10)"
    by (simp add: histogram_range_two_phase example_wide_range)
  from C6_histogram_file [of "histogram_tool ?narrow", OF run content narrow]
    C6_histogram_file [of "histogram_tool ?wide", OF run content wide]
  show ?thesis
    by (simp add: temp_example empty_world_fields)
qed

section \<open>Properties of run_kmc and run_kmc_dump\<close>


text \<open>Writing the list of paths when no operation on the file fails.\<close>

lemma print_paths_ok:
  "io_error w = (\<lambda>op. None) \<Longrightarrow> files w p = Some ls \<Longrightarrow>
   print_paths p paths w = (Inr (), w\<lparr>files := (files w)(p \<mapsto> ls @ map Txt paths)\<rparr>)"
proof (induction paths arbitrary: w ls)
  case Nil
  then have "(files w)(p \<mapsto> ls) = files w" by (simp add: fun_upd_idem)
  then show ?case by simp
next
  case (Cons x paths)
  let ?w = "w\<lparr>files := (files w)(p \<mapsto> ls @ [Txt x])\<rparr>"
  from Cons.prems have step: "print_to p x w = (Inr (), ?w)"
    by (simp add: print_to_def)
  from Cons.prems have "print_paths p paths ?w =
      (Inr (), ?w\<lparr>files := (files ?w)(p \<mapsto> (ls @ [Txt x]) @ map Txt paths)\<rparr>)"
    by (intro Cons.IH) simp_all
  then have "print_paths p paths ?w =
      (Inr (), w\<lparr>files := (files w)(p \<mapsto> ls @ map Txt (x # paths))\<rparr>)"
    by simp
  then show ?case
    unfolding print_paths.simps step by (simp add: fun_upd_def)
qed

lemma write_paths_list_ok:
  "io_error w = (\<lambda>op. None) \<Longrightarrow>
   write_paths_list p paths w = (Inr (), w\<lparr>files := (files w)(p \<mapsto> map Txt paths)\<rparr>)"
  using print_paths_ok [of "w\<lparr>files := (files w)(p \<mapsto> [])\<rparr>" p "[]" paths]
  by (simp add: write_paths_list_def open_write_def close_file_def)

text \<open>Writing the list of paths prints nothing to the error stream.\<close>

lemma print_paths_stderr: "print_paths p paths w = (r, w') \<Longrightarrow> stderr w' = stderr w"
proof (induction paths arbitrary: w)
  case Nil
  then show ?case by auto
next
  case (Cons x paths)
  show ?case
  proof (cases "io_error w (Print p x)")
    case None
    with Cons.prems Cons.IH [of "w\<lparr>files := (files w)(p \<mapsto>
        (case files w p of None \<Rightarrow> [] | Some ls \<Rightarrow> ls) @ [Txt x])\<rparr>"]
    show ?thesis by (simp add: print_to_def)
  next
    case (Some e)
    with Cons.prems show ?thesis by (auto simp: print_to_def)
  qed
qed

lemma write_paths_list_stderr:
  assumes "write_paths_list p paths w = (r, w')"
  shows "stderr w' = stderr w"
proof (cases "io_error w (OpenWrite p)")
  case (Some e)
  with assms show ?thesis by (auto simp: write_paths_list_def open_write_def)
next
  case None
  let ?w1 = "w\<lparr>files := (files w)(p \<mapsto> [])\<rparr>"
  obtain r2 w2 where pr: "print_paths p paths ?w1 = (r2, w2)"
    by (cases "print_paths p paths ?w1")
  then have "stderr w2 = stderr w" by (auto dest: print_paths_stderr)
  moreover from assms None pr have "stderr w' = stderr w2"
    by (auto simp: write_paths_list_def open_write_def close_file_def
        split: sum.splits option.splits)
  ultimately show ?thesis by simp
qed

text \<open>The list of paths exists once it is written.\<close>

lemma print_paths_exists:
  "print_paths p paths w = (r, w') \<Longrightarrow> files w p \<noteq> None \<Longrightarrow> files w' p \<noteq> None"
proof (induction paths arbitrary: w)
  case Nil
  then show ?case by auto
next
  case (Cons x paths)
  show ?case
  proof (cases "io_error w (Print p x)")
    case None
    with Cons.prems Cons.IH [of "w\<lparr>files := (files w)(p \<mapsto>
        (case files w p of None \<Rightarrow> [] | Some ls \<Rightarrow> ls) @ [Txt x])\<rparr>"]
    show ?thesis by (simp add: print_to_def)
  next
    case (Some e)
    with Cons.prems show ?thesis by (auto simp: print_to_def)
  qed
qed

lemma write_paths_list_exists:
  assumes "write_paths_list p paths w = (Inr (), w')"
  shows "files w' p \<noteq> None"
proof (cases "io_error w (OpenWrite p)")
  case (Some e)
  with assms show ?thesis by (auto simp: write_paths_list_def open_write_def)
next
  case None
  let ?w1 = "w\<lparr>files := (files w)(p \<mapsto> [])\<rparr>"
  obtain r2 w2 where pr: "print_paths p paths ?w1 = (r2, w2)"
    by (cases "print_paths p paths ?w1")
  then have "files w2 p \<noteq> None" by (rule print_paths_exists) simp
  moreover from assms None pr have "files w' p = files w2 p"
    by (auto simp: write_paths_list_def open_write_def close_file_def
        split: sum.splits option.splits)
  ultimately show ?thesis by simp
qed

text \<open>\<open>run_kmc\<close> once the list of paths is written: the \<open>try\<close> statement of lines 94-105
  in the world \<open>w2\<close> the writing has left.\<close>

lemma run_kmc_unfold:
  assumes "write_paths_list (paths_list_file rnd scratch_dir w) infile_paths
             (w\<lparr>draws := Suc (draws w)\<rparr>) = (Inr (), w2)"
  shows "run_kmc exec rnd infile_paths outfile_path k threads kmc_path scratch_dir w =
     (let p = paths_list_file rnd scratch_dir w;
          (outcome, w3) =
            (case check_call exec (kmc_command kmc_path k threads p outfile_path scratch_dir)
                    w2 of
               (Inl FileNotFoundError, w') \<Rightarrow> (Inl (SystemExit 1), eprint kmc_missing w')
             | (Inl e, w') \<Rightarrow> (Inl e, w')
             | (Inr u, w') \<Rightarrow> (Inr u, w'))
      in case os_remove p w3 of
           (Inl e, w4) \<Rightarrow> (Inl e, w4)
         | (Inr _, w4) \<Rightarrow> (outcome, w4))"
  using assms by (simp add: run_kmc_def randint_def paths_list_file_def)


lemma paths_list_example: "paths_list_file fixed_draw ''.'' empty_world = ''./42''"
  by (simp add: paths_list_file_def fixed_draw_def str_int_42)

lemma write_example:
  "write_paths_list (paths_list_file fixed_draw ''.'' empty_world) [''a.fq'']
     (empty_world\<lparr>draws := Suc (draws empty_world)\<rparr>) =
   (Inr (), empty_world\<lparr>draws := Suc (draws empty_world),
              files := (files empty_world)(''./42'' \<mapsto> [Txt ''a.fq''])\<rparr>)"
  by (simp add: write_paths_list_ok empty_world_fields paths_list_example)



text \<open>
  Claim C8. Let the list of input paths be written. If the external counter cannot be
  started, \<open>run_kmc\<close> ends with \<open>SystemExit 1\<close> and has printed one line to the error
  stream, the diagnostic of lines 98-99, which names kmc. If the counter exits with a
  non-zero status, \<open>run_kmc\<close> ends with an exception: the CalledProcessError of that
  status, or FileNotFoundError from the clean-up in case the counter has removed the list
  of input paths itself.
\<close>

theorem C8_kmc_failure:
  assumes "write_paths_list (paths_list_file rnd scratch_dir w) infile_paths
             (w\<lparr>draws := Suc (draws w)\<rparr>) = (Inr (), w2)"
  shows
  "(exec (kmc_command kmc_path k threads (paths_list_file rnd scratch_dir w) outfile_path
            scratch_dir) w2 = NotFound \<longrightarrow>
      fst (run_kmc exec rnd infile_paths outfile_path k threads kmc_path scratch_dir w) =
        Inl (SystemExit 1) \<and>
      stderr (snd (run_kmc exec rnd infile_paths outfile_path k threads kmc_path scratch_dir w)) =
        stderr w @
        [''Cannot execute kmc. Make sure kmc is installed and either in'' @ [CHR 0x0A] @
         ''your PATH or specified by the --path-to-kmc option.'']) \<and>
   (exec (kmc_command kmc_path k threads (paths_list_file rnd scratch_dir w) outfile_path
            scratch_dir) w2 = Exited rc w' \<and> rc \<noteq> 0 \<longrightarrow>
      fst (run_kmc exec rnd infile_paths outfile_path k threads kmc_path scratch_dir w) =
        Inl (if files w' (paths_list_file rnd scratch_dir w) = None then FileNotFoundError
             else CalledProcessError rc
                    (kmc_command kmc_path k threads (paths_list_file rnd scratch_dir w)
                       outfile_path scratch_dir)))"
proof -
  from assms have "stderr w2 = stderr (w\<lparr>draws := Suc (draws w)\<rparr>)"
    by (rule write_paths_list_stderr)
  then have "stderr w2 = stderr w" by simp
  moreover from assms have "files w2 (paths_list_file rnd scratch_dir w) \<noteq> None"
    by (rule write_paths_list_exists)
  ultimately show ?thesis
    by (auto simp: run_kmc_unfold [OF assms] check_call_def os_remove_def eprint_def
        kmc_missing_def Let_def split: option.splits)
qed

theorem C8_kmc_failure_witness:
  "write_paths_list (paths_list_file fixed_draw ''.'' empty_world) [''a.fq'']
     (empty_world\<lparr>draws := Suc (draws empty_world)\<rparr>) =
   (Inr (), empty_world\<lparr>draws := Suc (draws empty_world),
              files := (files empty_world)(''./42'' \<mapsto> [Txt ''a.fq''])\<rparr>) \<and>
   missing_tool
     (kmc_command ''kmc'' 21 1 (paths_list_file fixed_draw ''.'' empty_world) ''./haplotypeA''
        ''.'')
     (empty_world\<lparr>draws := Suc (draws empty_world),
        files := (files empty_world)(''./42'' \<mapsto> [Txt ''a.fq''])\<rparr>) = NotFound \<and>
   fst (run_kmc missing_tool fixed_draw [''a.fq''] ''./haplotypeA'' 21 1 ''kmc'' ''.''
          empty_world) = Inl (SystemExit 1) \<and>
   stderr (snd (run_kmc missing_tool fixed_draw [''a.fq''] ''./haplotypeA'' 21 1 ''kmc'' ''.''
          empty_world)) =
     [''Cannot execute kmc. Make sure kmc is installed and either in'' @ [CHR 0x0A] @
      ''your PATH or specified by the --path-to-kmc option.''] \<and>
   exiting_tool 3
     (kmc_command ''kmc'' 21 1 (paths_list_file fixed_draw ''.'' empty_world) ''./haplotypeA''
        ''.'')
     (empty_world\<lparr>draws := Suc (draws empty_world),
        files := (files empty_world)(''./42'' \<mapsto> [Txt ''a.fq''])\<rparr>) =
     Exited 3 (empty_world\<lparr>draws := Suc (draws empty_world),
        files := (files empty_world)(''./42'' \<mapsto> [Txt ''a.fq''])\<rparr>) \<and>
   (3::int) \<noteq> 0 \<and>
   fst (run_kmc (exiting_tool 3) fixed_draw [''a.fq''] ''./haplotypeA'' 21 1 ''kmc'' ''.''
          empty_world) =
     Inl (CalledProcessError 3
           [''kmc'', ''-k21'', ''-t1'', ''@./42'', ''./haplotypeA'', ''.''])"
  using
    C8_kmc_failure [OF write_example, where exec = missing_tool
      and outfile_path = "''./haplotypeA''" and k = 21 and threads = 1 and kmc_path = "''kmc''"]
    C8_kmc_failure [OF write_example, where exec = "exiting_tool 3"
      and outfile_path = "''./haplotypeA''" and k = 21 and threads = 1 and kmc_path = "''kmc''"
      and rc = 3
      and w' = "empty_world\<lparr>draws := Suc (draws empty_world),
        files := (files empty_world)(''./42'' \<mapsto> [Txt ''a.fq''])\<rparr>"]
    write_example
  by (simp add: missing_tool_def exiting_tool_def paths_list_example empty_world_fields
      kmc_command_def str_int_def digit_char_def)

lemma count_lines_length: "foldl (\<lambda>num_lines l. num_lines + 1) a ls = a + int (length ls)"
  by (induction ls arbitrary: a) simp_all

text \<open>
  Claim C9. When the external dump exits with status 0 and leaves the lines \<open>ls\<close> at the
  output path, \<open>run_kmc_dump\<close> returns the number of these lines; with 7 lines written
  for the bounds 3 and 3 it returns 7, as the example run shows.
\<close>

theorem C9_dump_count:
  assumes "exec (dump_command kmc_cmd min_count max_count kmc_db out_path) w = Exited 0 w'"
    and "files w' out_path = Some ls"
  shows "run_kmc_dump exec kmc_db out_path min_count max_count kmc_cmd w =
         (Inr (int (length ls)), w')"
  using assms
  by (simp add: run_kmc_dump_def check_call_def count_lines_def count_lines_length)

theorem C9_dump_count_witness:
  "dump_tool example_database
     (dump_command ''kmc'' 3 3 ''./haplotypeA_only'' ''./hapA_only_kmers.txt'') empty_world =
   Exited 0 (empty_world\<lparr>files := (files empty_world)(''./hapA_only_kmers.txt'' \<mapsto>
     [Txt ''AAAC 3'', Txt ''AAAG 3'', Txt ''AAGT 3'', Txt ''ACGT 3'', Txt ''AGCT 3'',
      Txt ''CCGG 3'', Txt ''GATC 3''])\<rparr>) \<and>
   fst (run_kmc_dump (dump_tool example_database) ''./haplotypeA_only''
          ''./hapA_only_kmers.txt'' 3 3 ''kmc'' empty_world) = Inr 7"
proof -
  let ?ls = "[Txt ''AAAC 3'', Txt ''AAAG 3'', Txt ''AAGT 3'', Txt ''ACGT 3'', Txt ''AGCT 3'',
      Txt ''CCGG 3'', Txt ''GATC 3'']"
  let ?w' = "empty_world\<lparr>files := (files empty_world)(''./hapA_only_kmers.txt'' \<mapsto> ?ls)\<rparr>"
  have run: "dump_tool example_database
     (dump_command ''kmc'' 3 3 ''./haplotypeA_only'' ''./hapA_only_kmers.txt'') empty_world =
     Exited 0 ?w'"
    by (simp add: dump_tool_def dump_command_def example_database_def decimal_def str_int_def
        digit_char_def)
  have content: "files ?w' ''./hapA_only_kmers.txt'' = Some ?ls"
    by simp
  from C9_dump_count [of "dump_tool example_database", OF run content] run show ?thesis
    by simp
qed

section \<open>Properties of main\<close>

lemma parse_args_attrs:
  "parse_args cl ''kmer_size'' = Some (PInt (arg_k cl))"
  "parse_args cl ''count_lower'' = Some (PInt (arg_l cl))"
  "parse_args cl ''count_upper'' = Some (PInt (arg_u cl))"
  "parse_args cl ''path_to_kmc'' = Some (PStr (arg_path_to_kmc cl))"
  "parse_args cl ''threads'' = Some (PInt (arg_p cl))"
  "parse_args cl ''outpath'' = Some (PStr (arg_o cl))"
  "parse_args cl ''scratch_dir'' = Some (PStr (arg_s cl))"
  "parse_args cl ''read_files'' = Some (PList (arg_read_files cl))"
  "parse_args cl ''l'' = None"
  "parse_args cl ''u'' = None"
  by (simp_all add: parse_args_def dest_def long_option_def attribute_name_def)

lemma count_range_raises:
  "count_range exec rnd (parse_args cl) outfile_path w = (Inl (AttributeError ''l''), w)"
  by (simp add: count_range_def io_bind_def attr_int_def io_raise_def parse_args_attrs)

lemma count_library_run:
  "count_library exec rnd (parse_args cl) (hap_ID, haplotype_files_string) w =
     (case run_kmc exec rnd (split_on CHR '','' haplotype_files_string)
             (arg_o cl @ ''/haplotype'' @ hap_ID) (arg_k cl) (arg_p cl) (arg_path_to_kmc cl)
             (arg_s cl)
             (eprint (green (''Counting k-mers in haplotype '' @ hap_ID @ ''...'')) w) of
        (Inl e, w') \<Rightarrow> (Inl e, w')
      | (Inr u, w') \<Rightarrow> (Inl (AttributeError ''l''), w'))"
  by (simp add: count_library_def io_bind_def io_print_def io_return_def attr_str_def
      attr_int_def parse_args_attrs count_range_raises Let_def split: prod.splits sum.splits)

lemma run_kmc_example:
  assumes "io_error w = (\<lambda>op. None)"
  shows "fst (run_kmc (exiting_tool 0) rnd infile_paths outfile_path k threads kmc_path
                scratch_dir w) = Inr ()"
proof -
  from assms have "write_paths_list (paths_list_file rnd scratch_dir w) infile_paths
      (w\<lparr>draws := Suc (draws w)\<rparr>) =
    (Inr (), w\<lparr>draws := Suc (draws w),
               files := (files w)(paths_list_file rnd scratch_dir w \<mapsto> map Txt infile_paths)\<rparr>)"
    by (simp add: write_paths_list_ok)
  then show ?thesis
    by (simp add: run_kmc_unfold check_call_def exiting_tool_def os_remove_def Let_def)
qed

text \<open>
  Claim C2 fails on the code. Line 254 reads \<open>args.l\<close> and \<open>args.u\<close>, but the namespace
  holds the bounds as \<open>count_lower\<close> and \<open>count_upper\<close>. With count_lower = 5 and
  count_upper = 50, and also with both left at 0, \<open>main\<close> raises AttributeError for \<open>l\<close>
  after the first run of the counter: neither the supplied bounds are used nor is
  \<open>analyze_histogram\<close> called.
\<close>

theorem C2_main_raises:
  "fst (main (exiting_tool 0) fixed_draw example_command_line empty_world) =
     Inl (AttributeError ''l'') \<and>
   fst (main (exiting_tool 0) fixed_draw (example_command_line\<lparr>arg_l := 0, arg_u := 0\<rparr>)
          empty_world) =
     Inl (AttributeError ''l'')"
proof -
  have "fst (main (exiting_tool 0) fixed_draw cl empty_world) = Inl (AttributeError ''l'')"
    if "arg_read_files cl = [''a.fq'', ''b.fq'']" for cl
  proof -
    let ?w = "eprint (green (''Counting k-mers in haplotype '' @ ''A'' @ ''...'')) empty_world"
    let ?run = "run_kmc (exiting_tool 0) fixed_draw (split_on CHR '','' ''a.fq'')
             (arg_o cl @ ''/haplotype'' @ ''A'') (arg_k cl) (arg_p cl) (arg_path_to_kmc cl)
             (arg_s cl) ?w"
    have "fst ?run = Inr ()"
      by (rule run_kmc_example) (simp add: eprint_def empty_world_fields)
    then obtain w' where "?run = (Inr (), w')" by (cases ?run) auto
    then have "count_library (exiting_tool 0) fixed_draw (parse_args cl) (''A'', ''a.fq'')
        empty_world = (Inl (AttributeError ''l''), w')"
      by (simp add: count_library_run)
    with that show ?thesis
      by (simp add: main_def Let_def io_bind_def attr_list_def io_return_def parse_args_attrs)
  qed
  then show ?thesis by (simp add: example_command_line_def)
qed

end
